theory Spec2Isabelle
  imports Main
begin

section \<open>Python string operations used by \<open>RpmbuildTask\<close>\<close>

text \<open>
  The source is Python 2: a file opened with mode \<open>'rb'\<close> yields byte strings, and
  archive member names are byte strings. A byte string is a \<open>string\<close> here, one
  \<open>char\<close> per byte.
\<close>

text \<open>
  Stripping the characters of a class from both ends. \<open>str.strip()\<close> with no argument,
  on a byte string, removes these six bytes.
\<close>

definition lstrip_with :: "(char \<Rightarrow> bool) \<Rightarrow> string \<Rightarrow> string" where
  "lstrip_with sp s = dropWhile sp s"

definition rstrip_with :: "(char \<Rightarrow> bool) \<Rightarrow> string \<Rightarrow> string" where
  "rstrip_with sp s = rev (dropWhile sp (rev s))"

definition strip_with :: "(char \<Rightarrow> bool) \<Rightarrow> string \<Rightarrow> string" where
  "strip_with sp s = rstrip_with sp (lstrip_with sp s)"

definition is_space :: "char \<Rightarrow> bool" where
  "is_space c = (c = CHR '' '' \<or> c = CHR 0x09 \<or> c = CHR 0x0A \<or> c = CHR 0x0B
                 \<or> c = CHR 0x0C \<or> c = CHR 0x0D)"

definition strip :: "string \<Rightarrow> string" where
  "strip s = strip_with is_space s"

text \<open>
  \<open>unicode.strip()\<close>: among the ASCII characters, a \<open>unicode\<close> string also counts the
  four separators \<open>0x1C\<close> to \<open>0x1F\<close> as whitespace.
\<close>

definition is_uspace :: "char \<Rightarrow> bool" where
  "is_uspace c = (is_space c \<or> c = CHR 0x1C \<or> c = CHR 0x1D \<or> c = CHR 0x1E \<or> c = CHR 0x1F)"

definition ustrip :: "string \<Rightarrow> string" where
  "ustrip s = strip_with is_uspace s"

text \<open>\<open>str.lower()\<close> on a byte string maps the bytes \<open>A\<close>..\<open>Z\<close> to \<open>a\<close>..\<open>z\<close>.\<close>

definition lower_char :: "char \<Rightarrow> char" where
  "lower_char c =
     (let n = (of_char c :: nat) in if 65 \<le> n \<and> n \<le> 90 then char_of (n + 32) else c)"

definition lower :: "string \<Rightarrow> string" where
  "lower s = map lower_char s"

text \<open>
  The module has \<open>unicode_literals\<close> on, so its string literals are \<open>unicode\<close>. A byte
  string method given a \<open>unicode\<close> argument (\<open>startswith\<close>) first decodes the byte
  string as ASCII, and raises \<open>UnicodeDecodeError\<close> when a byte is 128 or more.
\<close>

definition is_ascii :: "string \<Rightarrow> bool" where
  "is_ascii s = list_all (\<lambda>c. (of_char c :: nat) < 128) s"

definition startswith :: "string \<Rightarrow> string \<Rightarrow> bool" where
  "startswith s p = (take (length p) s = p)"

definition endswith :: "string \<Rightarrow> string \<Rightarrow> bool" where
  "endswith s p = (length p \<le> length s \<and> drop (length s - length p) s = p)"

text \<open>\<open>s.split(c)\<close> for a one-character separator: never an empty list.\<close>

fun split_on :: "char \<Rightarrow> string \<Rightarrow> string list" where
  "split_on c [] = [[]]"
| "split_on c (x # xs) =
     (if x = c then [] # split_on c xs
      else (x # hd (split_on c xs)) # tl (split_on c xs))"

text \<open>\<open>s.split(c, 1)\<close>: at most one cut, at the first separator.\<close>

definition split_first :: "char \<Rightarrow> string \<Rightarrow> string list" where
  "split_first c s =
     (if c \<in> set s then [takeWhile (\<lambda>x. x \<noteq> c) s, tl (dropWhile (\<lambda>x. x \<noteq> c) s)]
      else [s])"

text \<open>\<open>sep.join(xs)\<close>.\<close>

fun str_join :: "string \<Rightarrow> string list \<Rightarrow> string" where
  "str_join sep [] = []"
| "str_join sep [x] = x"
| "str_join sep (x # y # ys) = x @ sep @ str_join sep (y # ys)"

text \<open>
  Iterating over a file object yields its lines, each with its terminating newline;
  a last line without one is yielded as it is, and an empty file yields nothing.
\<close>

fun lines_from :: "string \<Rightarrow> string \<Rightarrow> string list" where
  "lines_from cur [] = (if cur = [] then [] else [cur])"
| "lines_from cur (x # xs) =
     (if x = CHR 0x0A then (cur @ [x]) # lines_from [] xs else lines_from (cur @ [x]) xs)"

definition file_lines :: "string \<Rightarrow> string list" where
  "file_lines content = lines_from [] content"

section \<open>Errors\<close>

text \<open>
  The exceptions \<open>RpmbuildTask\<close> can raise. \<open>TaskError\<close> carries its message; the message's
  formatted argument (a command and its exit status, a platform key) is kept as a value.
\<close>

datatype task_msg =
    Failed_to_build_image "string list" int
  | Failed_to_run_build_container "string list" int
  | Failed_to_extract_RPMS
  | Unknown_platform string

datatype error =
    TaskError task_msg
  | IndexError
  | KeyError string
  | UnicodeDecodeError
  | AttributeError
  | StreamError
  | ReadError

text \<open>\<open>xs[i]\<close> for a non-negative index.\<close>

definition py_index :: "'a list \<Rightarrow> nat \<Rightarrow> error + 'a" where
  "py_index xs i = (if i < length xs then Inr (xs ! i) else Inl IndexError)"

section \<open>The requirement scanner\<close>

text \<open>\<open>convert_build_req\<close>: the loop appends one package name per comma-separated piece.\<close>

fun convert_loop :: "string list \<Rightarrow> string list \<Rightarrow> string list" where
  "convert_loop pkg_names [] = pkg_names"
| "convert_loop pkg_names (raw_build_req # rest) =
     convert_loop (pkg_names @ [hd (split_on CHR '' '' (ustrip raw_build_req))]) rest"

definition convert_build_req :: "string \<Rightarrow> string list" where
  "convert_build_req raw_build_reqs = convert_loop [] (split_on CHR '','' raw_build_reqs)"

text \<open>
  \<open>extract_build_reqs\<close>, over the lines of the spec file. A line with a byte outside
  ASCII makes \<open>line.startswith('buildrequires')\<close> raise \<open>UnicodeDecodeError\<close>; a keyword
  line with no colon makes \<open>line.split(':', 1)[1]\<close> raise \<open>IndexError\<close>.
\<close>

fun extract_loop :: "string list \<Rightarrow> string list \<Rightarrow> error + string list" where
  "extract_loop build_reqs [] = Inr build_reqs"
| "extract_loop build_reqs (ln # rest) =
     (if \<not> is_ascii (lower (strip ln)) then Inl UnicodeDecodeError
      else if startswith (lower (strip ln)) ''buildrequires''
      then (case py_index (split_first CHR '':'' (lower (strip ln))) 1 of
              Inl e \<Rightarrow> Inl e
            | Inr after \<Rightarrow>
                extract_loop (build_reqs @ convert_build_req (ustrip after)) rest)
      else extract_loop build_reqs rest)"

definition extract_build_reqs :: "string \<Rightarrow> error + string list" where
  "extract_build_reqs content = extract_loop [] (file_lines content)"

section \<open>Paths\<close>

text \<open>\<open>os.path.join\<close>, \<open>os.path.basename\<close> and \<open>os.path.dirname\<close> of \<open>posixpath\<close>.\<close>

definition os_path_join :: "string \<Rightarrow> string \<Rightarrow> string" where
  "os_path_join a b =
     (if startswith b ''/'' then b
      else if a = [] \<or> endswith a ''/'' then a @ b
      else a @ ''/'' @ b)"

definition os_path_basename :: "string \<Rightarrow> string" where
  "os_path_basename p = rev (takeWhile (\<lambda>x. x \<noteq> CHR ''/'') (rev p))"

definition os_path_dirname :: "string \<Rightarrow> string" where
  "os_path_dirname p =
     (let head = rev (dropWhile (\<lambda>x. x \<noteq> CHR ''/'') (rev p))
      in if head \<noteq> [] \<and> head \<noteq> replicate (length head) CHR ''/''
         then rev (dropWhile (\<lambda>x. x = CHR ''/'') (rev head))
         else head)"

text \<open>\<open>s.lstrip(chars)\<close> removes leading characters that occur in \<open>chars\<close>.\<close>

definition lstrip_chars :: "string \<Rightarrow> string \<Rightarrow> string" where
  "lstrip_chars s chars = dropWhile (\<lambda>x. x \<in> set chars) s"

section \<open>Copying a stream\<close>

text \<open>
  A readable stream: the bytes not yet read, and a log of the sizes asked for.
  \<open>r.read(size)\<close> returns at most \<open>size\<close> bytes, and no bytes only at the end of the
  stream; \<open>caps\<close> lets a read return fewer bytes than asked for (its next number, at
  least one byte), as a pipe may. The stream of an archive member has no caps.
\<close>

record reader =
  remaining :: string
  caps :: "nat list"
  requested :: "nat list"

definition read :: "reader \<Rightarrow> nat \<Rightarrow> string \<times> reader" where
  "read r sz =
     (let n = (case caps r of [] \<Rightarrow> sz | c # _ \<Rightarrow> min sz (max 1 c))
      in (take n (remaining r),
          \<lparr>remaining = drop n (remaining r), caps = tl (caps r),
           requested = requested r @ [sz]\<rparr>))"

text \<open>
  \<open>write_stream\<close>: the destination \<open>w\<close> is the list of buffers written to it so far.
  The loop runs while the buffer last read is not empty.
\<close>

function write_stream_loop :: "nat \<Rightarrow> string \<Rightarrow> reader \<Rightarrow> string list \<Rightarrow> reader \<times> string list" where
  "write_stream_loop sz buf r w =
     (if buf \<noteq> []
      then write_stream_loop sz (fst (read r sz)) (snd (read r sz)) (w @ [buf])
      else (r, w))"
  by pat_completeness auto
termination
proof (relation "measure (\<lambda>(sz, buf, r, w). length buf + length (remaining r))")
  show "wf (measure (\<lambda>(sz, buf, r, w). length buf + length (remaining r)))"
    by simp
next
  fix sz :: nat and buf :: string and r :: reader and w :: "string list"
  assume "buf \<noteq> []"
  then have "0 < length buf" by simp
  moreover have "length (fst (read r sz)) + length (remaining (snd (read r sz)))
                 = length (remaining r)"
    by (simp add: read_def Let_def min_def)
  ultimately show "((sz, fst (read r sz), snd (read r sz), w @ [buf]), (sz, buf, r, w))
        \<in> measure (\<lambda>(sz, buf, r, w). length buf + length (remaining r))"
    by simp
qed

declare write_stream_loop.simps [simp del]

definition write_stream :: "reader \<Rightarrow> string list \<Rightarrow> reader \<times> string list" where
  "write_stream r w =
     (let sz = 1024 * 1024
      in write_stream_loop sz (fst (read r sz)) (snd (read r sz)) w)"

section \<open>Configuration, targets and the environment\<close>

text \<open>The options \<open>RpmbuildTask\<close> registers, as \<open>self.get_options()\<close> returns them.\<close>

record options =
  platforms :: "string \<rightharpoonup> (string \<rightharpoonup> string)"
  platform :: string
  docker :: string
  keep_build_products :: bool
  docker_build_no_cache :: bool
  docker_build_context_files :: "string list"
  docker_build_setup_commands :: "string list"
  shell_before :: bool
  shell_after :: bool
  pants_distdir :: string

record rpm_spec_target =
  rpm_spec :: string
  sources_relative_to_buildroot :: "string list"
  remote_sources :: "string list"

datatype target = RpmSpecTarget rpm_spec_target | OtherTarget

definition is_rpm_spec :: "target \<Rightarrow> bool" where
  "is_rpm_spec t = (case t of RpmSpecTarget _ \<Rightarrow> True | OtherTarget \<Rightarrow> False)"

text \<open>
  What \<open>extractfile\<close> of \<open>tarfile\<close> does with a member of an archive read as a stream:
  for a regular file it returns a file object over the member's bytes, for a hard or
  symbolic link it raises \<open>StreamError\<close>, and for any other member (a directory, a
  device) it returns \<open>None\<close>.
\<close>

datatype member = Regular string | Link | Other

record entry =
  entry_name :: string
  entry_member :: member

text \<open>
  What the world outside answers during one build attempt: the build root, the bytes of
  the spec file, the result of \<open>template.format(platform_id=...)\<close> (a library function,
  which may raise), the temporary directory handed out, the two identifiers
  \<open>uuid.uuid4()\<close> returns, the exit codes of the \<open>docker\<close> subprocesses, and the archive
  that \<open>docker export\<close> writes: its members in order, and whether the stream can be read
  to its end (\<open>tarfile\<close> raises \<open>ReadError\<close> on a truncated or damaged stream; the
  members listed are then those read in full before that point, and what was written of
  a member cut short is not recorded). Copying and writing files is taken to succeed, and
  the \<open>docker\<close> executable to exist.
\<close>

record env =
  buildroot :: string
  spec_content :: string
  format_platform_id :: "string \<Rightarrow> string \<Rightarrow> error + string"
  temp_dir :: string
  image_uuid :: string
  container_uuid :: string
  build_image_rc :: int
  run_container_rc :: int
  export_entries :: "entry list"
  export_complete :: bool
  export_rc :: int

section \<open>Effects\<close>

text \<open>The keyword arguments given to the two template generators.\<close>

record entrypoint_context =
  ep_spec_basename :: string
  ep_pre_commands :: "string list"
  ep_post_commands :: "string list"

record dockerfile_context =
  df_image :: string
  df_setup_commands :: "string list"
  df_spec_basename :: string
  df_build_reqs :: "string option"
  df_local_sources :: "string list"
  df_remote_sources :: "(string \<times> string) list"

text \<open>
  What a run does to the world, in order. \<open>Check_call\<close>, \<open>Call\<close> and \<open>Popen\<close> are the
  three ways the source starts a subprocess; \<open>Write_file\<close> is a file opened for writing
  with the buffers then written to it.
\<close>

datatype event =
    Copy string string
  | Render_entrypoint string entrypoint_context
  | Chmod string nat
  | Render_dockerfile string dockerfile_context
  | Temporary_dir string
  | Rmtree string
  | Log_debug string
  | Log_info string
  | Workunit string string
  | Check_call "string list"
  | Call "string list"
  | Popen "string list"
  | Proc_wait
  | Safe_mkdir string
  | Write_file string "string list"

section \<open>Assembling the build context\<close>

fun copy_context_files ::
  "env \<Rightarrow> (string \<rightharpoonup> string) \<Rightarrow> string \<Rightarrow> string list \<Rightarrow> event list \<times> (error + unit)" where
  "copy_context_files ev plat build_dir [] = ([], Inr ())"
| "copy_context_files ev plat build_dir (context_file_path_template # rest) =
     (case plat ''id'' of
        None \<Rightarrow> ([], Inl (KeyError ''id''))
      | Some platform_id \<Rightarrow>
          (case format_platform_id ev context_file_path_template platform_id of
             Inl e \<Rightarrow> ([], Inl e)
           | Inr context_file_path \<Rightarrow>
               (case copy_context_files ev plat build_dir rest of
                  (evs, r) \<Rightarrow> (Copy context_file_path build_dir # evs, r))))"

fun determine_setup_commands ::
  "env \<Rightarrow> (string \<rightharpoonup> string) \<Rightarrow> string list \<Rightarrow> error + string list" where
  "determine_setup_commands ev plat [] = Inr []"
| "determine_setup_commands ev plat (command # rest) =
     (case plat ''id'' of
        None \<Rightarrow> Inl (KeyError ''id'')
      | Some platform_id \<Rightarrow>
          (case format_platform_id ev command platform_id of
             Inl e \<Rightarrow> Inl e
           | Inr c \<Rightarrow>
               (case determine_setup_commands ev plat rest of
                  Inl e \<Rightarrow> Inl e
                | Inr cs \<Rightarrow> Inr (c # cs))))"

text \<open>Line 164: the block is given only for a non-empty list.\<close>

definition build_reqs_block :: "string list \<Rightarrow> string option" where
  "build_reqs_block reqs = (if reqs \<noteq> [] then Some (str_join '' '' reqs) else None)"

text \<open>
  Lines 117 to 170 of \<open>build_rpm\<close>: everything before the image is named. An exception
  here leaves \<open>build_rpm\<close> before its \<open>try\<close> block is entered.
\<close>

definition assemble_context ::
  "options \<Rightarrow> env \<Rightarrow> (string \<rightharpoonup> string) \<Rightarrow> rpm_spec_target \<Rightarrow> string
     \<Rightarrow> event list \<times> (error + unit)" where
  "assemble_context opts ev plat tgt build_dir =
     (let rpm_spec_path = os_path_join (buildroot ev) (rpm_spec tgt);
          spec_basename = os_path_basename (rpm_spec tgt);
          evs1 = [Copy rpm_spec_path build_dir]
      in case extract_build_reqs (spec_content ev) of
           Inl e \<Rightarrow> (evs1, Inl e)
         | Inr build_reqs \<Rightarrow>
      (let evs2 = map (\<lambda>source_rel_path.
                         Copy (os_path_join (buildroot ev) source_rel_path) build_dir)
                      (sources_relative_to_buildroot tgt);
           local_srcs = map os_path_basename (sources_relative_to_buildroot tgt);
           remote_srcs = map (\<lambda>rs. (rs, os_path_basename rs)) (remote_sources tgt);
           entrypoint_path = os_path_join build_dir ''build_rpm.sh'';
           evs3 = [Render_entrypoint entrypoint_path
                     \<lparr>ep_spec_basename = spec_basename,
                      ep_pre_commands = (if shell_before opts then [''/bin/bash -i''] else []),
                      ep_post_commands = (if shell_after opts then [''/bin/bash -i''] else [])\<rparr>,
                   Chmod entrypoint_path 365]
       in case copy_context_files ev plat build_dir (docker_build_context_files opts) of
            (evs4, Inl e) \<Rightarrow> (evs1 @ evs2 @ evs3 @ evs4, Inl e)
          | (evs4, Inr _) \<Rightarrow>
       (case determine_setup_commands ev plat (docker_build_setup_commands opts) of
            Inl e \<Rightarrow> (evs1 @ evs2 @ evs3 @ evs4, Inl e)
          | Inr setup_cmds \<Rightarrow>
       (case plat ''base'' of
            None \<Rightarrow> (evs1 @ evs2 @ evs3 @ evs4, Inl (KeyError ''base''))
          | Some base \<Rightarrow>
              (evs1 @ evs2 @ evs3 @ evs4 @
               [Render_dockerfile (os_path_join build_dir ''Dockerfile'')
                  \<lparr>df_image = base,
                   df_setup_commands = setup_cmds,
                   df_spec_basename = spec_basename,
                   df_build_reqs = build_reqs_block build_reqs,
                   df_local_sources = local_srcs,
                   df_remote_sources = remote_srcs\<rparr>],
               Inr ())))))"

section \<open>Building, running, extracting, cleaning up\<close>

definition docker_workunit :: "string \<Rightarrow> string list \<Rightarrow> event" where
  "docker_workunit nm cmd = Workunit nm (str_join '' '' cmd)"

definition build_image_cmd :: "options \<Rightarrow> string \<Rightarrow> string \<Rightarrow> string list" where
  "build_image_cmd opts image_name build_dir =
     [docker opts, ''build'']
     @ (if docker_build_no_cache opts then [''--no-cache''] else [])
     @ [''-t'', image_name, build_dir]"

definition run_container_cmd :: "options \<Rightarrow> string \<Rightarrow> string \<Rightarrow> string list" where
  "run_container_cmd opts container_name image_name =
     [docker opts, ''run'', ''--attach=stdout'', ''--attach=stderr'',
      ''--name='' @ container_name]
     @ (if shell_before opts \<or> shell_after opts then [''-i'', ''-t''] else [])
     @ [image_name]"

definition extract_rpms_cmd :: "options \<Rightarrow> string \<Rightarrow> string list" where
  "extract_rpms_cmd opts container_name = [docker opts, ''export'', container_name]"

definition remove_container_cmd :: "options \<Rightarrow> string \<Rightarrow> string list" where
  "remove_container_cmd opts container_name = [docker opts, ''rm'', container_name]"

definition remove_image_cmd :: "options \<Rightarrow> string \<Rightarrow> string list" where
  "remove_image_cmd opts image_name = [docker opts, ''rmi'', image_name]"

text \<open>The test of line 233 on a member's name.\<close>

definition is_rpm_name :: "string \<Rightarrow> bool" where
  "is_rpm_name nm =
     ((startswith nm ''home/rpmuser/rpmbuild/RPMS/''
       \<or> startswith nm ''home/rpmuser/rpmbuild/SRPMS/'')
      \<and> endswith nm ''.rpm'')"

text \<open>
  The body of the loop over the archive (lines 232 to 240), for one member. The file is
  opened before \<open>write_stream\<close> is called, so a member for which \<open>extractfile\<close> returned
  \<open>None\<close> leaves an empty file and raises \<open>AttributeError\<close> at \<open>r.read\<close>.
\<close>

definition extract_entry :: "string \<Rightarrow> entry \<Rightarrow> event list \<times> (error + unit)" where
  "extract_entry output_dir en =
     (let nm = entry_name en
      in if \<not> is_ascii nm then ([], Inl UnicodeDecodeError)
         else if is_rpm_name nm
         then (let rel_rpm_path = lstrip_chars nm ''home/rpmuser/rpmbuild/''
               in if rel_rpm_path \<noteq> []
                  then (case entry_member en of
                          Link \<Rightarrow>
                            ([Log_info (''Extracting '' @ rel_rpm_path)], Inl StreamError)
                        | Other \<Rightarrow>
                            ([Log_info (''Extracting '' @ rel_rpm_path),
                              Safe_mkdir (os_path_join output_dir (os_path_dirname rel_rpm_path)),
                              Write_file (os_path_join output_dir rel_rpm_path) []],
                             Inl AttributeError)
                        | Regular bytes \<Rightarrow>
                            ([Log_info (''Extracting '' @ rel_rpm_path),
                              Safe_mkdir (os_path_join output_dir (os_path_dirname rel_rpm_path)),
                              Write_file (os_path_join output_dir rel_rpm_path)
                                (snd (write_stream
                                   \<lparr>remaining = bytes, caps = [], requested = []\<rparr> []))],
                             Inr ()))
                  else ([], Inr ()))
         else ([], Inr ()))"

fun extract_entries :: "string \<Rightarrow> entry list \<Rightarrow> event list \<times> (error + unit)" where
  "extract_entries output_dir [] = ([], Inr ())"
| "extract_entries output_dir (en # rest) =
     (case extract_entry output_dir en of
        (evs, Inl e) \<Rightarrow> (evs, Inl e)
      | (evs, Inr _) \<Rightarrow>
          (case extract_entries output_dir rest of (evs', r) \<Rightarrow> (evs @ evs', r)))"

text \<open>
  The body of the \<open>try\<close> block (lines 178 to 244). Besides the effects and the outcome it
  returns the value \<open>container_name\<close> holds when the block is left: \<open>None\<close> until line
  198 assigns it.
\<close>

definition docker_steps ::
  "options \<Rightarrow> env \<Rightarrow> string \<Rightarrow> string \<Rightarrow> event list \<times> string option \<times> (error + unit)" where
  "docker_steps opts ev image_name build_dir =
     (let cmd1 = build_image_cmd opts image_name build_dir;
          evs1 = [docker_workunit ''build-image'' cmd1,
                  Log_debug (''Executing: '' @ str_join '' '' cmd1),
                  Check_call cmd1]
      in if build_image_rc ev \<noteq> 0
         then (evs1, None, Inl (TaskError (Failed_to_build_image cmd1 (build_image_rc ev))))
         else
      (let container_name = ''rpm-builder-'' @ container_uuid ev;
           cmd2 = run_container_cmd opts container_name image_name;
           evs2 = [docker_workunit ''run-container'' cmd2,
                   Log_debug (''Executing: '' @ str_join '' '' cmd2),
                   Check_call cmd2]
       in if run_container_rc ev \<noteq> 0
          then (evs1 @ evs2, Some container_name,
                Inl (TaskError (Failed_to_run_build_container cmd2 (run_container_rc ev))))
          else
      (let output_dir = os_path_join (pants_distdir opts) ''rpmbuild'';
           cmd3 = extract_rpms_cmd opts container_name;
           evs3 = [Safe_mkdir output_dir, docker_workunit ''extract-rpms'' cmd3, Popen cmd3]
       in case extract_entries output_dir (export_entries ev) of
            (evs4, Inl e) \<Rightarrow> (evs1 @ evs2 @ evs3 @ evs4, Some container_name, Inl e)
          | (evs4, Inr _) \<Rightarrow>
              if \<not> export_complete ev
              then (evs1 @ evs2 @ evs3 @ evs4, Some container_name, Inl ReadError)
              else if export_rc ev \<noteq> 0
              then (evs1 @ evs2 @ evs3 @ evs4 @ [Proc_wait], Some container_name,
                    Inl (TaskError Failed_to_extract_RPMS))
              else (evs1 @ evs2 @ evs3 @ evs4 @ [Proc_wait], Some container_name, Inr ()))))"

text \<open>
  The \<open>finally\<close> block (lines 246 to 257). \<open>subprocess.call\<close> does not raise on a non-zero
  exit, so the block has no outcome of its own. A name is true in Python when it is
  neither \<open>None\<close> nor the empty string.
\<close>

definition cleanup :: "options \<Rightarrow> string option \<Rightarrow> string \<Rightarrow> event list" where
  "cleanup opts container_name image_name =
     (case container_name of
        None \<Rightarrow> []
      | Some cn \<Rightarrow>
          if cn \<noteq> [] \<and> \<not> keep_build_products opts
          then [docker_workunit ''remove-build-container'' (remove_container_cmd opts cn),
                Call (remove_container_cmd opts cn)]
          else [])
     @ (if \<not> keep_build_products opts
        then [docker_workunit ''remove-build-image'' (remove_image_cmd opts image_name),
              Call (remove_image_cmd opts image_name)]
        else [])"

definition image_name_of :: "env \<Rightarrow> string" where
  "image_name_of ev = (''rpm-image-'' @ image_uuid ev) @ '':latest''"

definition build_rpm ::
  "options \<Rightarrow> env \<Rightarrow> (string \<rightharpoonup> string) \<Rightarrow> rpm_spec_target \<Rightarrow> string
     \<Rightarrow> event list \<times> (error + unit)" where
  "build_rpm opts ev plat tgt build_dir =
     (case assemble_context opts ev plat tgt build_dir of
        (evs0, Inl e) \<Rightarrow> (evs0, Inl e)
      | (evs0, Inr _) \<Rightarrow>
          (let image_name = image_name_of ev
           in case docker_steps opts ev image_name build_dir of
                (evs1, container_name, r) \<Rightarrow>
                  (evs0 @ evs1 @ cleanup opts container_name image_name, r)))"

section \<open>\<open>execute\<close>\<close>

text \<open>
  The loop of \<open>execute\<close> over \<open>self.context.targets(self.is_rpm_spec)\<close>: each target comes
  with what the world answers during its attempt. The temporary directory is removed
  when the \<open>with\<close> block is left, on every path, unless build products are kept.
\<close>

fun build_targets ::
  "options \<Rightarrow> (string \<rightharpoonup> string) \<Rightarrow> (target \<times> env) list \<Rightarrow> event list \<times> (error + unit)" where
  "build_targets opts plat [] = ([], Inr ())"
| "build_targets opts plat ((OtherTarget, ev) # rest) = build_targets opts plat rest"
| "build_targets opts plat ((RpmSpecTarget tgt, ev) # rest) =
     (let build_dir = temp_dir ev;
          evs_open = [Temporary_dir build_dir, Log_debug (''Build directory: '' @ build_dir)];
          evs_close = (if \<not> keep_build_products opts then [Rmtree build_dir] else [])
      in case build_rpm opts ev plat tgt build_dir of
           (evs, Inl e) \<Rightarrow> (evs_open @ evs @ evs_close, Inl e)
         | (evs, Inr _) \<Rightarrow>
             (case build_targets opts plat rest of
                (evs', r) \<Rightarrow> (evs_open @ evs @ evs_close @ evs', r)))"

definition execute :: "options \<Rightarrow> (target \<times> env) list \<Rightarrow> event list \<times> (error + unit)" where
  "execute opts targets =
     (let platform_key = platform opts
      in case platforms opts platform_key of
           None \<Rightarrow> ([], Inl (TaskError (Unknown_platform platform_key)))
         | Some p \<Rightarrow> build_targets opts (p(''id'' \<mapsto> platform_key)) targets)"

section \<open>The properties as the specification words them\<close>

text \<open>
  The scanner as the specification describes it, to be compared with
  \<open>extract_build_reqs\<close>: the lines that begin with the keyword once trimmed and compared
  without regard to case; of such a line, the text after its first colon; of that text,
  the comma-separated pieces, each trimmed (as a \<open>unicode\<close> string is) and cut at its
  first space.
\<close>

definition keyword_line :: "string \<Rightarrow> bool" where
  "keyword_line ln = startswith (lower (strip ln)) ''buildrequires''"

definition text_after_colon :: "string \<Rightarrow> string" where
  "text_after_colon s = tl (dropWhile (\<lambda>x. x \<noteq> CHR '':'') s)"

definition tokens_of_text :: "string \<Rightarrow> string list" where
  "tokens_of_text t =
     map (\<lambda>piece. takeWhile (\<lambda>x. x \<noteq> CHR '' '') (ustrip piece)) (split_on CHR '','' t)"

text \<open>With the tokens taken from the line as it stands in the file.\<close>

definition scanned_verbatim :: "string \<Rightarrow> string list" where
  "scanned_verbatim content =
     concat (map (\<lambda>ln. tokens_of_text (text_after_colon (strip ln)))
                 (filter keyword_line (file_lines content)))"

text \<open>With the tokens taken from the lower-cased line.\<close>

definition scanned_lowered :: "string \<Rightarrow> string list" where
  "scanned_lowered content =
     concat (map (\<lambda>ln. tokens_of_text (text_after_colon (lower (strip ln))))
                 (filter keyword_line (file_lines content)))"

text \<open>Removing a literal prefix: \<open>s[len(p):]\<close> once \<open>s.startswith(p)\<close> is known.\<close>

definition remove_prefix :: "string \<Rightarrow> string \<Rightarrow> string" where
  "remove_prefix s p = (if startswith s p then drop (length p) s else s)"

section \<open>Reading a run\<close>

text \<open>
  What is read off the effects of a run: the commands started with \<open>subprocess.call\<close>
  (the source does so for the two removals only), those started with
  \<open>subprocess.check_call\<close> (the image build and the container run), the files written
  with the bytes each received, and the image-definition files rendered.
\<close>

fun calls :: "event list \<Rightarrow> string list list" where
  "calls [] = []"
| "calls (Call cmd # evs) = cmd # calls evs"
| "calls (_ # evs) = calls evs"

fun check_calls :: "event list \<Rightarrow> string list list" where
  "check_calls [] = []"
| "check_calls (Check_call cmd # evs) = cmd # check_calls evs"
| "check_calls (_ # evs) = check_calls evs"

fun files_written :: "event list \<Rightarrow> (string \<times> string) list" where
  "files_written [] = []"
| "files_written (Write_file path bufs # evs) = (path, concat bufs) # files_written evs"
| "files_written (_ # evs) = files_written evs"

fun dockerfiles :: "event list \<Rightarrow> (string \<times> dockerfile_context) list" where
  "dockerfiles [] = []"
| "dockerfiles (Render_dockerfile path ctx # evs) = (path, ctx) # dockerfiles evs"
| "dockerfiles (_ # evs) = dockerfiles evs"

text \<open>The bytes of an archive member; a member that is not a regular file has none.\<close>

definition member_bytes :: "member \<Rightarrow> string" where
  "member_bytes m = (case m of Regular bytes \<Rightarrow> bytes | Link \<Rightarrow> [] | Other \<Rightarrow> [])"

text \<open>The output directory of line 221.\<close>

definition output_dir_of :: "options \<Rightarrow> string" where
  "output_dir_of opts = os_path_join (pants_distdir opts) ''rpmbuild''"

section \<open>Example inputs\<close>

definition example_options :: options where
  "example_options =
     \<lparr>platforms = [''centos7'' \<mapsto> [''base'' \<mapsto> ''centos:7'']],
      platform = ''centos7'',
      docker = ''docker'',
      keep_build_products = False,
      docker_build_no_cache = False,
      docker_build_context_files = [],
      docker_build_setup_commands = [],
      shell_before = False,
      shell_after = False,
      pants_distdir = ''dist''\<rparr>"

definition example_platform :: "string \<rightharpoonup> string" where
  "example_platform = [''base'' \<mapsto> ''centos:7'', ''id'' \<mapsto> ''centos7'']"

definition example_target :: rpm_spec_target where
  "example_target =
     \<lparr>rpm_spec = ''pkgs/pkg.spec'',
      sources_relative_to_buildroot = [''pkgs/src.tgz''],
      remote_sources = [''http://host/dist.tgz'']\<rparr>"

definition example_env :: env where
  "example_env =
     \<lparr>buildroot = ''/repo'',
      spec_content = ''BuildRequires: foo >= 1.2, bar'',
      format_platform_id = (\<lambda>template platform_id. Inr template),
      temp_dir = ''/tmp/build'',
      image_uuid = ''u1'',
      container_uuid = ''u2'',
      build_image_rc = 0,
      run_container_rc = 0,
      export_entries =
        [\<lparr>entry_name = ''home/rpmuser/rpmbuild/RPMS/x86_64/pkg-1.0.rpm'',
          entry_member = Regular ''abc''\<rparr>,
         \<lparr>entry_name = ''home/rpmuser/rpmbuild/RPMS/x86_64/readme.txt'',
          entry_member = Regular ''text''\<rparr>],
      export_complete = True,
      export_rc = 0\<rparr>"

section \<open>Facts about the string operations\<close>

lemma split_on_nonempty: "split_on c s \<noteq> []"
  by (induction s) auto

lemma hd_split_on: "hd (split_on c s) = takeWhile (\<lambda>x. x \<noteq> c) s"
  by (induction s) auto

lemma strip_Cons_space: "sp w \<Longrightarrow> strip_with sp (w # r) = strip_with sp r"
  by (simp add: strip_with_def lstrip_with_def)

lemma rstrip_with_snoc:
  "rstrip_with sp (s @ [w]) = (if sp w then rstrip_with sp s else s @ [w])"
  by (simp add: rstrip_with_def)

lemma lstrip_with_snoc_space:
  "sp w \<Longrightarrow>
   lstrip_with sp (r @ [w]) = (if lstrip_with sp r = [] then [] else lstrip_with sp r @ [w])"
  by (induction r) (auto simp: lstrip_with_def)

lemma strip_snoc_space: "sp w \<Longrightarrow> strip_with sp (r @ [w]) = strip_with sp r"
  by (simp add: strip_with_def lstrip_with_snoc_space rstrip_with_snoc)

lemma split_on_lstrip:
  "\<not> sp c \<Longrightarrow>
   map (strip_with sp) (split_on c (lstrip_with sp s)) = map (strip_with sp) (split_on c s)"
proof (induction s)
  case Nil
  then show ?case by (simp add: lstrip_with_def)
next
  case (Cons w s)
  show ?case
  proof (cases "sp w")
    case True
    with Cons have "w \<noteq> c" by auto
    have ne: "split_on c s \<noteq> []" by (rule split_on_nonempty)
    have "map (strip_with sp) (split_on c (w # s))
          = strip_with sp (w # hd (split_on c s))
            # map (strip_with sp) (tl (split_on c s))"
      using \<open>w \<noteq> c\<close> by simp
    also have "\<dots> = strip_with sp (hd (split_on c s))
                     # map (strip_with sp) (tl (split_on c s))"
      using True by (simp add: strip_Cons_space)
    also have "\<dots> = map (strip_with sp) (split_on c s)"
      using ne by (cases "split_on c s") auto
    finally show ?thesis using True Cons by (simp add: lstrip_with_def)
  next
    case False
    then show ?thesis by (simp add: lstrip_with_def)
  qed
qed

lemma split_on_snoc:
  "w \<noteq> c \<Longrightarrow> split_on c (s @ [w]) = butlast (split_on c s) @ [last (split_on c s) @ [w]]"
proof (induction s)
  case Nil
  then show ?case by simp
next
  case (Cons x s)
  have ne: "split_on c s \<noteq> []" by (rule split_on_nonempty)
  show ?case
  proof (cases "split_on c s")
    case Nil
    with ne show ?thesis by simp
  next
    case (Cons h t)
    with Cons.IH[OF Cons.prems] show ?thesis
      by (cases t) (auto simp: split_on_nonempty)
  qed
qed

lemma split_on_rstrip:
  "\<not> sp c \<Longrightarrow>
   map (strip_with sp) (split_on c (rstrip_with sp s)) = map (strip_with sp) (split_on c s)"
proof (induction s rule: rev_induct)
  case Nil
  then show ?case by (simp add: rstrip_with_def)
next
  case (snoc w s)
  show ?case
  proof (cases "sp w")
    case True
    with snoc have "w \<noteq> c" by auto
    have ne: "split_on c s \<noteq> []" by (rule split_on_nonempty)
    have "map (strip_with sp) (split_on c (s @ [w])) =
          map (strip_with sp) (butlast (split_on c s))
          @ [strip_with sp (last (split_on c s) @ [w])]"
      using \<open>w \<noteq> c\<close> by (simp add: split_on_snoc)
    also have "\<dots> = map (strip_with sp) (butlast (split_on c s) @ [last (split_on c s)])"
      using True by (simp add: strip_snoc_space)
    also have "\<dots> = map (strip_with sp) (split_on c s)"
      using ne by simp
    finally show ?thesis using True snoc by (simp add: rstrip_with_snoc)
  next
    case False
    then show ?thesis by (simp add: rstrip_with_snoc)
  qed
qed

lemma split_on_strip:
  "\<not> sp c \<Longrightarrow>
   map (strip_with sp) (split_on c (strip_with sp s)) = map (strip_with sp) (split_on c s)"
  by (simp add: strip_with_def split_on_rstrip split_on_lstrip)

lemma of_char_lower_char:
  "of_char (lower_char c) =
     (if 65 \<le> (of_char c :: nat) \<and> (of_char c :: nat) \<le> 90
      then of_char c + 32 else (of_char c :: nat))"
  by (auto simp: lower_char_def Let_def)

lemma lower_char_colon: "lower_char c = CHR '':'' \<longleftrightarrow> c = CHR '':''"
proof
  assume "lower_char c = CHR '':''"
  then have "(of_char (lower_char c) :: nat) = of_char CHR '':''" by simp
  then have "(of_char c :: nat) = of_char CHR '':''"
    by (simp add: of_char_lower_char split: if_splits)
  then show "c = CHR '':''" by (simp only: of_char_eq_iff)
next
  assume "c = CHR '':''"
  then show "lower_char c = CHR '':''" by (simp add: lower_char_def)
qed

lemma colon_in_lower: "CHR '':'' \<in> set (lower s) \<longleftrightarrow> CHR '':'' \<in> set s"
proof -
  have "CHR '':'' \<in> set (lower s) \<longleftrightarrow> (\<exists>x \<in> set s. lower_char x = CHR '':'')"
    unfolding lower_def by force
  also have "\<dots> \<longleftrightarrow> (\<exists>x \<in> set s. x = CHR '':'')"
    by (simp only: lower_char_colon)
  finally show ?thesis by blast
qed

lemma set_lstrip_with: "set (lstrip_with sp s) \<union> {x \<in> set s. sp x} = set s"
  by (induction s) (auto simp: lstrip_with_def)

lemma set_rstrip_with: "set (rstrip_with sp s) \<union> {x \<in> set s. sp x} = set s"
proof (induction s rule: rev_induct)
  case Nil
  then show ?case by (simp add: rstrip_with_def)
next
  case (snoc w s)
  then show ?case by (auto simp: rstrip_with_snoc)
qed

lemma colon_in_strip: "CHR '':'' \<in> set (strip s) \<longleftrightarrow> CHR '':'' \<in> set s"
  using set_lstrip_with[of is_space s] set_rstrip_with[of is_space "lstrip_with is_space s"]
  by (auto simp: strip_def strip_with_def is_space_def)

lemma set_strip_subset: "set (strip s) \<subseteq> set s"
  using set_lstrip_with[of is_space s] set_rstrip_with[of is_space "lstrip_with is_space s"]
  unfolding strip_def strip_with_def by blast

lemma is_ascii_lower_strip:
  assumes "is_ascii s"
  shows "is_ascii (lower (strip s))"
proof -
  have "(of_char (lower_char c) :: nat) < 128" if "c \<in> set (strip s)" for c
  proof -
    from that set_strip_subset[of s] have "c \<in> set s" by blast
    with assms have "(of_char c :: nat) < 128"
      by (simp add: is_ascii_def list_all_iff)
    then show ?thesis by (simp add: of_char_lower_char)
  qed
  then show ?thesis by (simp add: is_ascii_def lower_def list_all_iff)
qed

lemma concat_lines_from: "concat (lines_from cur xs) = cur @ xs"
  by (induction xs arbitrary: cur) auto

lemma is_ascii_file_lines:
  assumes "is_ascii content" and "ln \<in> set (file_lines content)"
  shows "is_ascii ln"
proof -
  have "set ln \<subseteq> set (concat (file_lines content))"
    using assms(2) by auto
  then have "set ln \<subseteq> set content"
    by (simp add: file_lines_def concat_lines_from)
  with assms(1) show ?thesis
    by (auto simp: is_ascii_def list_all_iff)
qed

section \<open>What the requirement scanner returns\<close>

lemma convert_loop_map:
  "convert_loop acc xs = acc @ map (\<lambda>r. takeWhile (\<lambda>x. x \<noteq> CHR '' '') (ustrip r)) xs"
  by (induction xs arbitrary: acc) (auto simp: hd_split_on)

lemma convert_build_req_strip: "convert_build_req (ustrip t) = tokens_of_text t"
proof -
  have comma: "\<not> is_uspace CHR '',''" by (simp add: is_uspace_def is_space_def)
  have "convert_build_req (ustrip t)
        = map (takeWhile (\<lambda>x. x \<noteq> CHR '' '')) (map ustrip (split_on CHR '','' (ustrip t)))"
    by (simp add: convert_build_req_def convert_loop_map)
  also have "\<dots> = map (takeWhile (\<lambda>x. x \<noteq> CHR '' ''))
                     (map (strip_with is_uspace) (split_on CHR '','' (strip_with is_uspace t)))"
    by (simp add: ustrip_def[abs_def])
  also have "\<dots> = map (takeWhile (\<lambda>x. x \<noteq> CHR '' ''))
                     (map (strip_with is_uspace) (split_on CHR '','' t))"
    by (simp only: split_on_strip[where sp = is_uspace and c = "CHR '',''", OF comma])
  also have "\<dots> = tokens_of_text t"
    by (simp add: tokens_of_text_def ustrip_def[abs_def])
  finally show ?thesis .
qed

lemma py_index_split_first:
  "py_index (split_first c s) (Suc 0) =
     (if c \<in> set s then Inr (tl (dropWhile (\<lambda>x. x \<noteq> c) s)) else Inl IndexError)"
  by (simp add: py_index_def split_first_def)

lemma extract_loop_tokens:
  assumes "\<forall>ln \<in> set lns. is_ascii ln"
    and "\<forall>ln \<in> set lns. keyword_line ln \<longrightarrow> CHR '':'' \<in> set ln"
  shows "extract_loop acc lns =
         Inr (acc @ concat (map (\<lambda>ln. tokens_of_text (text_after_colon (lower (strip ln))))
                               (filter keyword_line lns)))"
  using assms
proof (induction lns arbitrary: acc)
  case Nil
  then show ?case by simp
next
  case (Cons ln lns)
  from Cons.prems have asc: "is_ascii (lower (strip ln))"
    by (simp add: is_ascii_lower_strip)
  from Cons.prems have rest:
    "\<forall>ln \<in> set lns. is_ascii ln"
    "\<forall>ln \<in> set lns. keyword_line ln \<longrightarrow> CHR '':'' \<in> set ln"
    by simp_all
  show ?case
  proof (cases "keyword_line ln")
    case True
    then have sw: "startswith (lower (strip ln)) ''buildrequires''"
      unfolding keyword_line_def .
    from True Cons.prems have "CHR '':'' \<in> set ln" by simp
    then have col: "CHR '':'' \<in> set (lower (strip ln))"
      by (simp only: colon_in_lower colon_in_strip)
    have "extract_loop acc (ln # lns) =
          extract_loop (acc @ tokens_of_text (text_after_colon (lower (strip ln)))) lns"
      using sw col asc
      by (simp add: py_index_split_first convert_build_req_strip text_after_colon_def)
    also have "\<dots> = Inr ((acc @ tokens_of_text (text_after_colon (lower (strip ln)))) @
          concat (map (\<lambda>ln. tokens_of_text (text_after_colon (lower (strip ln))))
                               (filter keyword_line lns)))"
      by (rule Cons.IH[OF rest])
    finally show ?thesis using True by simp
  next
    case False
    then have sw: "\<not> startswith (lower (strip ln)) ''buildrequires''"
      unfolding keyword_line_def .
    have "extract_loop acc (ln # lns) = extract_loop acc lns"
      using sw asc by simp
    also have "\<dots> = Inr (acc @
          concat (map (\<lambda>ln. tokens_of_text (text_after_colon (lower (strip ln))))
                               (filter keyword_line lns)))"
      by (rule Cons.IH[OF rest])
    finally show ?thesis using False by simp
  qed
qed

text \<open>
  C3, amended. For a spec file of ASCII bytes in which every keyword line has a colon,
  the scanner returns, in file order, the tokens of the lines that begin with
  \<open>buildrequires\<close> once trimmed and lower-cased: the text after the first colon of the
  trimmed, lower-cased line is split on commas, and each piece is trimmed and cut at its
  first space. The tokens are those of the lower-cased line, so they are in lower case.
  Lines that do not begin with the keyword give nothing, and a file with no keyword line
  gives the empty list.
\<close>

theorem extract_build_reqs_lowered:
  assumes "is_ascii content"
    and "\<forall>ln \<in> set (file_lines content). keyword_line ln \<longrightarrow> CHR '':'' \<in> set ln"
  shows "extract_build_reqs content = Inr (scanned_lowered content)"
proof -
  from assms(1) have "\<forall>ln \<in> set (file_lines content). is_ascii ln"
    by (blast intro: is_ascii_file_lines)
  from extract_loop_tokens[OF this assms(2), of "[]"] show ?thesis
    by (simp add: extract_build_reqs_def scanned_lowered_def)
qed

theorem extract_build_reqs_lowered_witness:
  "extract_build_reqs (''Name: x'' @ [CHR 0x0A] @ ''BuildRequires: Foo >= 1.2, bar'' @ [CHR 0x0A])
     = Inr (scanned_lowered (''Name: x'' @ [CHR 0x0A] @ ''BuildRequires: Foo >= 1.2, bar'' @ [CHR 0x0A]))
   \<and> scanned_lowered (''Name: x'' @ [CHR 0x0A] @ ''BuildRequires: Foo >= 1.2, bar'' @ [CHR 0x0A])
     = [''foo'', ''bar'']"
proof -
  let ?c = "''Name: x'' @ [CHR 0x0A] @ ''BuildRequires: Foo >= 1.2, bar'' @ [CHR 0x0A]"
  have h1: "is_ascii ?c" by code_simp
  have h2: "\<forall>ln \<in> set (file_lines ?c). keyword_line ln \<longrightarrow> CHR '':'' \<in> set ln"
    by code_simp
  have v: "scanned_lowered ?c = [''foo'', ''bar'']" by code_simp
  from extract_build_reqs_lowered[OF h1 h2] v show ?thesis by simp
qed

text \<open>
  C3 as worded, with the tokens taken verbatim from the line, fails on a requirement
  written with a capital letter: the scanner returns it in lower case.
\<close>

theorem extract_build_reqs_not_verbatim:
  "extract_build_reqs ''BuildRequires: Foo'' = Inr [''foo'']
   \<and> scanned_verbatim ''BuildRequires: Foo'' = [''Foo'']"
  by code_simp

text \<open>
  C8. A spec file holding the line \<open>BuildRequires: foo >= 1.2, bar\<close> gives the
  requirements \<open>foo\<close> and \<open>bar\<close>, in that order.
\<close>

theorem extract_build_reqs_example:
  "extract_build_reqs ''BuildRequires: foo >= 1.2, bar'' = Inr [''foo'', ''bar'']"
  by code_simp

section \<open>Stripping the prefix\<close>

lemma startswith_append: "startswith s p \<Longrightarrow> s = p @ drop (length p) s"
  unfolding startswith_def by (metis append_take_drop_id)

lemma lstrip_chars_stop:
  assumes "c \<notin> set p"
  shows "lstrip_chars (p @ c # rest) p = c # rest"
  using assms by (simp add: lstrip_chars_def dropWhile_append2)

lemma lstrip_chars_RPMS:
  assumes "startswith s ''home/rpmuser/rpmbuild/RPMS/''"
  shows "lstrip_chars s ''home/rpmuser/rpmbuild/'' = drop (length ''home/rpmuser/rpmbuild/'') s
         \<and> startswith s ''home/rpmuser/rpmbuild/''
         \<and> lstrip_chars s ''home/rpmuser/rpmbuild/'' \<noteq> []"
proof -
  obtain rest where s: "s = ''home/rpmuser/rpmbuild/'' @ CHR ''R'' # rest"
    using startswith_append[OF assms] by simp
  have "CHR ''R'' \<notin> set ''home/rpmuser/rpmbuild/''" by simp
  from lstrip_chars_stop[OF this, of rest] show ?thesis
    unfolding s by (simp add: startswith_def)
qed

lemma lstrip_chars_SRPMS:
  assumes "startswith s ''home/rpmuser/rpmbuild/SRPMS/''"
  shows "lstrip_chars s ''home/rpmuser/rpmbuild/'' = drop (length ''home/rpmuser/rpmbuild/'') s
         \<and> startswith s ''home/rpmuser/rpmbuild/''
         \<and> lstrip_chars s ''home/rpmuser/rpmbuild/'' \<noteq> []"
proof -
  obtain rest where s: "s = ''home/rpmuser/rpmbuild/'' @ CHR ''S'' # rest"
    using startswith_append[OF assms] by simp
  have "CHR ''S'' \<notin> set ''home/rpmuser/rpmbuild/''" by simp
  from lstrip_chars_stop[OF this, of rest] show ?thesis
    unfolding s by (simp add: startswith_def)
qed

lemma lstrip_chars_exact:
  assumes "startswith s ''home/rpmuser/rpmbuild/RPMS/''
           \<or> startswith s ''home/rpmuser/rpmbuild/SRPMS/''"
  shows "lstrip_chars s ''home/rpmuser/rpmbuild/'' = drop (length ''home/rpmuser/rpmbuild/'') s"
    and "lstrip_chars s ''home/rpmuser/rpmbuild/'' \<noteq> []"
  using assms lstrip_chars_RPMS[of s] lstrip_chars_SRPMS[of s] by blast+

text \<open>
  C7. For a name that starts with \<open>home/rpmuser/rpmbuild/RPMS/\<close> or with
  \<open>home/rpmuser/rpmbuild/SRPMS/\<close>, stripping the leading characters that occur in
  \<open>home/rpmuser/rpmbuild/\<close>, as the code does, gives the same as removing that literal
  prefix, and what is left is not empty.
\<close>

theorem lstrip_is_remove_prefix:
  assumes "startswith s ''home/rpmuser/rpmbuild/RPMS/''
           \<or> startswith s ''home/rpmuser/rpmbuild/SRPMS/''"
  shows "lstrip_chars s ''home/rpmuser/rpmbuild/'' = remove_prefix s ''home/rpmuser/rpmbuild/''
         \<and> lstrip_chars s ''home/rpmuser/rpmbuild/'' \<noteq> []"
  using assms lstrip_chars_RPMS[of s] lstrip_chars_SRPMS[of s]
  by (auto simp: remove_prefix_def)

theorem lstrip_is_remove_prefix_witness:
  "lstrip_chars ''home/rpmuser/rpmbuild/SRPMS/bob.src.rpm'' ''home/rpmuser/rpmbuild/''
     = remove_prefix ''home/rpmuser/rpmbuild/SRPMS/bob.src.rpm'' ''home/rpmuser/rpmbuild/''
   \<and> lstrip_chars ''home/rpmuser/rpmbuild/SRPMS/bob.src.rpm'' ''home/rpmuser/rpmbuild/'' \<noteq> []
   \<and> remove_prefix ''home/rpmuser/rpmbuild/SRPMS/bob.src.rpm'' ''home/rpmuser/rpmbuild/''
     = ''SRPMS/bob.src.rpm''"
proof -
  have h: "startswith ''home/rpmuser/rpmbuild/SRPMS/bob.src.rpm'' ''home/rpmuser/rpmbuild/RPMS/''
           \<or> startswith ''home/rpmuser/rpmbuild/SRPMS/bob.src.rpm'' ''home/rpmuser/rpmbuild/SRPMS/''"
    by (simp add: startswith_def)
  have v: "remove_prefix ''home/rpmuser/rpmbuild/SRPMS/bob.src.rpm'' ''home/rpmuser/rpmbuild/''
     = ''SRPMS/bob.src.rpm''"
    by (simp add: remove_prefix_def startswith_def)
  from lstrip_is_remove_prefix[OF h] v show ?thesis by simp
qed

section \<open>What \<open>write_stream\<close> writes\<close>

lemma read_facts:
  assumes "0 < sz"
  shows "length (fst (read r sz)) \<le> sz"
    and "fst (read r sz) @ remaining (snd (read r sz)) = remaining r"
    and "fst (read r sz) = [] \<longrightarrow> remaining (snd (read r sz)) = []"
    and "requested (snd (read r sz)) = requested r @ [sz]"
  using assms by (auto simp: read_def Let_def split: list.splits)

lemma write_stream_loop_inv:
  "0 < sz \<Longrightarrow> length buf \<le> sz \<Longrightarrow> (buf = [] \<longrightarrow> remaining r = []) \<Longrightarrow>
   \<exists>chunks r'. write_stream_loop sz buf r w = (r', w @ chunks)
      \<and> concat chunks = buf @ remaining r
      \<and> (\<forall>c \<in> set chunks. c \<noteq> [] \<and> length c \<le> sz)
      \<and> requested r' = requested r @ replicate (length chunks) sz
      \<and> remaining r' = []"
proof (induction sz buf r w rule: write_stream_loop.induct)
  case (1 sz buf r w)
  show ?case
  proof (cases "buf = []")
    case True
    with "1.prems" have "remaining r = []" by simp
    with True have "write_stream_loop sz buf r w = (r, w @ [])
      \<and> concat [] = buf @ remaining r
      \<and> (\<forall>c \<in> set ([] :: string list). c \<noteq> [] \<and> length c \<le> sz)
      \<and> requested r = requested r @ replicate (length ([] :: string list)) sz
      \<and> remaining r = []"
      by (simp add: write_stream_loop.simps)
    then show ?thesis by blast
  next
    case False
    from "1.prems"(1) have pos: "0 < sz" .
    obtain chunks r' where
      step: "write_stream_loop sz (fst (read r sz)) (snd (read r sz)) (w @ [buf])
             = (r', (w @ [buf]) @ chunks)"
      and cat: "concat chunks = fst (read r sz) @ remaining (snd (read r sz))"
      and bnd: "\<forall>c \<in> set chunks. c \<noteq> [] \<and> length c \<le> sz"
      and req: "requested r' = requested (snd (read r sz)) @ replicate (length chunks) sz"
      and fin: "remaining r' = []"
      using "1.IH"[OF False pos read_facts(1)[OF pos] read_facts(3)[OF pos]] by blast
    have "write_stream_loop sz buf r w = (r', w @ (buf # chunks))"
      using False step by (simp add: write_stream_loop.simps[of sz buf r w])
    moreover have "concat (buf # chunks) = buf @ remaining r"
      using cat read_facts(2)[OF pos, of r] by simp
    moreover have "\<forall>c \<in> set (buf # chunks). c \<noteq> [] \<and> length c \<le> sz"
      using bnd False "1.prems"(2) by simp
    moreover have "requested r' = requested r @ replicate (length (buf # chunks)) sz"
      using req read_facts(4)[OF pos, of r] by (simp add: replicate_app_Cons_same)
    ultimately show ?thesis using fin by blast
  qed
qed

lemma write_stream_chunks:
  "\<exists>chunks r'. write_stream r w = (r', w @ chunks)
      \<and> concat chunks = remaining r
      \<and> (\<forall>c \<in> set chunks. c \<noteq> [] \<and> length c \<le> 1024 * 1024)
      \<and> requested r' = requested r @ replicate (Suc (length chunks)) (1024 * 1024)
      \<and> remaining r' = []"
proof -
  let ?sz = "1024 * 1024 :: nat"
  have pos: "0 < ?sz" by simp
  obtain chunks r' where
    step: "write_stream_loop ?sz (fst (read r ?sz)) (snd (read r ?sz)) w = (r', w @ chunks)"
    and cat: "concat chunks = fst (read r ?sz) @ remaining (snd (read r ?sz))"
    and bnd: "\<forall>c \<in> set chunks. c \<noteq> [] \<and> length c \<le> ?sz"
    and req: "requested r' = requested (snd (read r ?sz)) @ replicate (length chunks) ?sz"
    and fin: "remaining r' = []"
    using write_stream_loop_inv[where sz = ?sz and buf = "fst (read r ?sz)"
        and r = "snd (read r ?sz)" and w = w, OF pos read_facts(1)[OF pos] read_facts(3)[OF pos]]
    by blast
  have "write_stream r w = (r', w @ chunks)"
    using step by (simp add: write_stream_def Let_def)
  moreover have "concat chunks = remaining r"
    using cat read_facts(2)[OF pos, of r] by simp
  moreover have "requested r' = requested r @ replicate (Suc (length chunks)) ?sz"
    using req read_facts(4)[OF pos, of r] by (simp add: replicate_app_Cons_same)
  ultimately show ?thesis using bnd fin by blast
qed

lemma concat_write_stream: "concat (snd (write_stream r [])) = remaining r"
  using write_stream_chunks[of r "[]"] by auto

text \<open>
  C5. Whatever the stream and however short its reads fall, \<open>write_stream\<close> adds to the
  destination buffers whose concatenation is the bytes of the source; each buffer
  written is non-empty and holds at most \<open>1024 * 1024\<close> bytes; every read asks for
  \<open>1024 * 1024\<close> bytes, and there is one read more than there are writes, the last one
  returning no bytes with the source read to its end.
\<close>

theorem write_stream_copies:
  "take (length w) (snd (write_stream r w)) = w
   \<and> concat (drop (length w) (snd (write_stream r w))) = remaining r
   \<and> (\<forall>buf \<in> set (drop (length w) (snd (write_stream r w))).
         buf \<noteq> [] \<and> length buf \<le> 1024 * 1024)
   \<and> requested (fst (write_stream r w))
       = requested r @ replicate (Suc (length (snd (write_stream r w)) - length w)) (1024 * 1024)
   \<and> remaining (fst (write_stream r w)) = []"
proof -
  obtain chunks r' where
    "write_stream r w = (r', w @ chunks)"
    "concat chunks = remaining r"
    "\<forall>c \<in> set chunks. c \<noteq> [] \<and> length c \<le> 1024 * 1024"
    "requested r' = requested r @ replicate (Suc (length chunks)) (1024 * 1024)"
    "remaining r' = []"
    using write_stream_chunks[of r w] by blast
  then show ?thesis by simp
qed

theorem write_stream_copies_witness:
  "snd (write_stream \<lparr>remaining = ''abcdef'', caps = [2, 0, 5], requested = []\<rparr> [''x''])
     = [''x'', ''ab'', ''c'', ''def'']
   \<and> concat (drop (length [''x''])
        (snd (write_stream \<lparr>remaining = ''abcdef'', caps = [2, 0, 5], requested = []\<rparr> [''x''])))
     = ''abcdef''
   \<and> requested (fst (write_stream \<lparr>remaining = ''abcdef'', caps = [2, 0, 5], requested = []\<rparr> [''x'']))
     = [1048576, 1048576, 1048576, 1048576]"
proof -
  let ?r = "\<lparr>remaining = ''abcdef'', caps = [2, 0, 5], requested = []\<rparr>"
  have v: "snd (write_stream ?r [''x'']) = [''x'', ''ab'', ''c'', ''def'']"
    by (simp add: write_stream_def read_def write_stream_loop.simps)
  from write_stream_copies[where r = ?r and w = "[''x'']"] v show ?thesis
    by simp
qed

section \<open>Effects of the phases\<close>

lemma calls_append: "calls (xs @ ys) = calls xs @ calls ys"
  by (induction xs rule: calls.induct) simp_all

lemma check_calls_append: "check_calls (xs @ ys) = check_calls xs @ check_calls ys"
  by (induction xs rule: check_calls.induct) simp_all

lemma files_written_append: "files_written (xs @ ys) = files_written xs @ files_written ys"
  by (induction xs rule: files_written.induct) simp_all

lemma dockerfiles_append: "dockerfiles (xs @ ys) = dockerfiles xs @ dockerfiles ys"
  by (induction xs rule: dockerfiles.induct) simp_all

lemma copy_context_files_quiet:
  "calls (fst (copy_context_files ev plat build_dir ts)) = []
   \<and> check_calls (fst (copy_context_files ev plat build_dir ts)) = []
   \<and> files_written (fst (copy_context_files ev plat build_dir ts)) = []
   \<and> dockerfiles (fst (copy_context_files ev plat build_dir ts)) = []
   \<and> Proc_wait \<notin> set (fst (copy_context_files ev plat build_dir ts))"
  by (induction ts) (auto split: option.splits sum.splits prod.splits)

lemma map_Copy_quiet:
  "calls (map (\<lambda>x. Copy (f x) d) xs) = []
   \<and> check_calls (map (\<lambda>x. Copy (f x) d) xs) = []
   \<and> files_written (map (\<lambda>x. Copy (f x) d) xs) = []
   \<and> dockerfiles (map (\<lambda>x. Copy (f x) d) xs) = []
   \<and> Proc_wait \<notin> set (map (\<lambda>x. Copy (f x) d) xs)"
  by (induction xs) auto

lemma assemble_context_quiet:
  "calls (fst (assemble_context opts ev plat tgt build_dir)) = []
   \<and> check_calls (fst (assemble_context opts ev plat tgt build_dir)) = []
   \<and> files_written (fst (assemble_context opts ev plat tgt build_dir)) = []
   \<and> Proc_wait \<notin> set (fst (assemble_context opts ev plat tgt build_dir))"
  using copy_context_files_quiet[of ev plat build_dir "docker_build_context_files opts"]
        map_Copy_quiet[of "os_path_join (buildroot ev)" build_dir "sources_relative_to_buildroot tgt"]
  by (auto simp: assemble_context_def Let_def calls_append check_calls_append
        files_written_append split: sum.splits prod.splits option.splits)

lemma extract_entry_quiet:
  "calls (fst (extract_entry out en)) = []
   \<and> check_calls (fst (extract_entry out en)) = []
   \<and> Proc_wait \<notin> set (fst (extract_entry out en))"
  by (simp add: extract_entry_def Let_def split: member.splits)

lemma extract_entry_written:
  assumes "extract_entry out en = (evs, Inr ())"
  shows "files_written evs =
         (if is_rpm_name (entry_name en)
          then [(os_path_join out (remove_prefix (entry_name en) ''home/rpmuser/rpmbuild/''),
                 member_bytes (entry_member en))]
          else [])"
proof (cases "is_rpm_name (entry_name en)")
  case False
  with assms show ?thesis
    by (auto simp: extract_entry_def Let_def split: if_splits)
next
  case True
  then have pre: "startswith (entry_name en) ''home/rpmuser/rpmbuild/RPMS/''
                  \<or> startswith (entry_name en) ''home/rpmuser/rpmbuild/SRPMS/''"
    by (simp add: is_rpm_name_def)
  from lstrip_chars_exact[OF pre]
  have rel: "lstrip_chars (entry_name en) ''home/rpmuser/rpmbuild/''
             = remove_prefix (entry_name en) ''home/rpmuser/rpmbuild/''"
    and ne: "lstrip_chars (entry_name en) ''home/rpmuser/rpmbuild/'' \<noteq> []"
    using pre lstrip_chars_RPMS[of "entry_name en"] lstrip_chars_SRPMS[of "entry_name en"]
    by (auto simp: remove_prefix_def)
  from assms True ne show ?thesis
    by (auto simp: extract_entry_def Let_def rel member_bytes_def concat_write_stream
             split: if_splits member.splits)
qed

lemma extract_entries_quiet:
  "calls (fst (extract_entries out ens)) = []
   \<and> check_calls (fst (extract_entries out ens)) = []
   \<and> Proc_wait \<notin> set (fst (extract_entries out ens))"
proof (induction ens)
  case Nil
  show ?case by simp
next
  case (Cons en ens)
  with extract_entry_quiet[of out en] show ?case
    by (auto simp: calls_append check_calls_append split: prod.splits sum.splits)
qed

lemma extract_entries_written:
  "extract_entries out ens = (evs, Inr ()) \<Longrightarrow>
   files_written evs =
     map (\<lambda>en. (os_path_join out (remove_prefix (entry_name en) ''home/rpmuser/rpmbuild/''),
                 member_bytes (entry_member en)))
         (filter (\<lambda>en. is_rpm_name (entry_name en)) ens)"
proof (induction ens arbitrary: evs)
  case Nil
  then show ?case by simp
next
  case (Cons en ens)
  from Cons.prems obtain evs1 evs2 where
    one: "extract_entry out en = (evs1, Inr ())"
    and rest: "extract_entries out ens = (evs2, Inr ())"
    and evs: "evs = evs1 @ evs2"
    by (auto split: prod.splits sum.splits)
  from extract_entry_written[OF one] Cons.IH[OF rest] show ?case
    by (simp add: evs files_written_append)
qed

lemma docker_steps_container:
  "fst (snd (docker_steps opts ev image_name build_dir)) =
     (if build_image_rc ev = 0 then Some (''rpm-builder-'' @ container_uuid ev) else None)"
  by (simp add: docker_steps_def Let_def split: prod.splits sum.splits)

lemma docker_steps_calls: "calls (fst (docker_steps opts ev image_name build_dir)) = []"
  using extract_entries_quiet[of "os_path_join (pants_distdir opts) ''rpmbuild''" "export_entries ev"]
  by (auto simp: docker_steps_def Let_def docker_workunit_def calls_append
           split: prod.splits sum.splits)

lemma docker_steps_check_calls:
  "check_calls (fst (docker_steps opts ev image_name build_dir)) =
     build_image_cmd opts image_name build_dir
     # (if build_image_rc ev = 0
        then [run_container_cmd opts (''rpm-builder-'' @ container_uuid ev) image_name]
        else [])"
  using extract_entries_quiet[of "os_path_join (pants_distdir opts) ''rpmbuild''" "export_entries ev"]
  by (auto simp: docker_steps_def Let_def docker_workunit_def check_calls_append
           split: prod.splits sum.splits)

lemma docker_steps_success:
  assumes "docker_steps opts ev image_name build_dir = (evs, cn, Inr ())"
  shows "\<exists>evs4. extract_entries (output_dir_of opts) (export_entries ev) = (evs4, Inr ())
           \<and> files_written evs = files_written evs4
           \<and> build_image_rc ev = 0 \<and> run_container_rc ev = 0
           \<and> export_complete ev \<and> export_rc ev = 0"
  using assms
  by (auto simp: docker_steps_def Let_def docker_workunit_def files_written_append
        output_dir_of_def split: prod.splits sum.splits if_splits)

lemma cleanup_effects:
  "calls (cleanup opts cn image_name) =
     (if keep_build_products opts then []
      else (case cn of None \<Rightarrow> [] | Some c \<Rightarrow> if c \<noteq> [] then [remove_container_cmd opts c] else [])
           @ [remove_image_cmd opts image_name])"
  "check_calls (cleanup opts cn image_name) = []"
  "files_written (cleanup opts cn image_name) = []"
  "Proc_wait \<notin> set (cleanup opts cn image_name)"
  by (auto simp: cleanup_def docker_workunit_def split: option.splits)

section \<open>The build attempt\<close>

lemma build_rpm_unfold:
  assumes "assemble_context opts ev plat tgt build_dir = (evs0, Inr ())"
  shows "build_rpm opts ev plat tgt build_dir =
         (evs0 @ fst (docker_steps opts ev (image_name_of ev) build_dir)
               @ cleanup opts (fst (snd (docker_steps opts ev (image_name_of ev) build_dir)))
                   (image_name_of ev),
          snd (snd (docker_steps opts ev (image_name_of ev) build_dir)))"
  using assms by (simp add: build_rpm_def Let_def split: prod.splits)

lemma assemble_quiet_of:
  assumes "assemble_context opts ev plat tgt build_dir = (evs0, r)"
  shows "calls evs0 = []" "check_calls evs0 = []" "files_written evs0 = []"
    "Proc_wait \<notin> set evs0"
  using assemble_context_quiet[of opts ev plat tgt build_dir] assms by simp_all

lemma example_reqs:
  "extract_build_reqs (spec_content example_env) = Inr [''foo'', ''bar'']"
  unfolding example_env_def by code_simp

lemma example_assemble:
  "snd (assemble_context example_options example_env example_platform example_target ''/tmp/build'')
   = Inr ()"
  by (simp add: assemble_context_def Let_def example_reqs)
     (simp add: example_options_def example_platform_def)

lemma example_assemble_pair:
  "assemble_context example_options example_env example_platform example_target ''/tmp/build''
   = (fst (assemble_context example_options example_env example_platform example_target
             ''/tmp/build''), Inr ())"
  using example_assemble by (simp add: prod_eq_iff)

text \<open>
  C1. When a build attempt succeeds, the files written are, in archive order, those of
  the members whose name starts with \<open>home/rpmuser/rpmbuild/RPMS/\<close> or
  \<open>home/rpmuser/rpmbuild/SRPMS/\<close> and ends with \<open>.rpm\<close>: each is written under the
  output directory at its name with the prefix \<open>home/rpmuser/rpmbuild/\<close> removed, with
  the member's bytes, and no other file is written.
\<close>

theorem build_rpm_outputs:
  assumes "build_rpm opts ev plat tgt build_dir = (evs, Inr ())"
  shows "files_written evs =
     map (\<lambda>en. (os_path_join (output_dir_of opts)
                   (remove_prefix (entry_name en) ''home/rpmuser/rpmbuild/''),
                 member_bytes (entry_member en)))
         (filter (\<lambda>en. is_rpm_name (entry_name en)) (export_entries ev))"
proof -
  obtain evs0 r0 where asm: "assemble_context opts ev plat tgt build_dir = (evs0, r0)"
    by (cases "assemble_context opts ev plat tgt build_dir")
  with assms have r0: "r0 = Inr ()"
    by (cases r0) (auto simp: build_rpm_def)
  obtain evs1 cn r1 where ds: "docker_steps opts ev (image_name_of ev) build_dir = (evs1, cn, r1)"
    by (cases "docker_steps opts ev (image_name_of ev) build_dir")
  from assms build_rpm_unfold[OF asm[unfolded r0]] ds
  have evs: "evs = evs0 @ evs1 @ cleanup opts cn (image_name_of ev)" and r1: "r1 = Inr ()"
    by simp_all
  from docker_steps_success[OF ds[unfolded r1]] obtain evs4 where
    ex: "extract_entries (output_dir_of opts) (export_entries ev) = (evs4, Inr ())"
    and fw: "files_written evs1 = files_written evs4"
    by blast
  have "files_written evs = files_written evs4"
    using assemble_quiet_of(3)[OF asm] fw
    by (simp add: evs files_written_append cleanup_effects)
  with extract_entries_written[OF ex] show ?thesis by simp
qed

theorem build_rpm_outputs_witness:
  "files_written
     (fst (build_rpm example_options example_env example_platform example_target ''/tmp/build''))
   = [(''dist/rpmbuild/RPMS/x86_64/pkg-1.0.rpm'', ''abc'')]
   \<and> snd (build_rpm example_options example_env example_platform example_target ''/tmp/build'')
     = Inr ()"
proof -
  let ?run = "build_rpm example_options example_env example_platform example_target ''/tmp/build''"
  have ex: "extract_entries ''dist/rpmbuild'' (export_entries example_env)
            = ([Log_info ''Extracting RPMS/x86_64/pkg-1.0.rpm'',
                Safe_mkdir ''dist/rpmbuild/RPMS/x86_64'',
                Write_file ''dist/rpmbuild/RPMS/x86_64/pkg-1.0.rpm'' [''abc'']], Inr ())"
    by (simp add: example_env_def extract_entry_def is_ascii_def is_rpm_name_def
        startswith_def endswith_def lstrip_chars_def os_path_join_def os_path_dirname_def
        write_stream_def read_def write_stream_loop.simps Let_def)
  have out: "os_path_join (pants_distdir example_options) ''rpmbuild'' = ''dist/rpmbuild''"
    by (simp add: example_options_def os_path_join_def startswith_def endswith_def)
  have ok: "snd (snd (docker_steps example_options example_env (image_name_of example_env)
                        ''/tmp/build'')) = Inr ()"
    by (simp add: docker_steps_def Let_def out ex) (simp add: example_env_def)
  have res: "snd ?run = Inr ()"
    using build_rpm_unfold[OF example_assemble_pair] ok by simp
  then have h: "?run = (fst ?run, Inr ())" by (simp add: prod_eq_iff)
  have v: "map (\<lambda>en. (os_path_join (output_dir_of example_options)
                   (remove_prefix (entry_name en) ''home/rpmuser/rpmbuild/''),
                 member_bytes (entry_member en)))
         (filter (\<lambda>en. is_rpm_name (entry_name en)) (export_entries example_env))
        = [(''dist/rpmbuild/RPMS/x86_64/pkg-1.0.rpm'', ''abc'')]"
    by (simp add: example_env_def example_options_def output_dir_of_def is_rpm_name_def
        startswith_def endswith_def remove_prefix_def os_path_join_def member_bytes_def)
  from build_rpm_outputs[OF h] v res show ?thesis by simp
qed

lemma docker_steps_build_failed:
  assumes "build_image_rc ev \<noteq> 0"
  shows "docker_steps opts ev image_name build_dir =
     ([docker_workunit ''build-image'' (build_image_cmd opts image_name build_dir),
       Log_debug (''Executing: '' @ str_join '' '' (build_image_cmd opts image_name build_dir)),
       Check_call (build_image_cmd opts image_name build_dir)],
      None,
      Inl (TaskError (Failed_to_build_image (build_image_cmd opts image_name build_dir)
                        (build_image_rc ev))))"
  using assms by (simp add: docker_steps_def Let_def)

lemma docker_steps_extracted:
  assumes "build_image_rc ev = 0" and "run_container_rc ev = 0"
    and "snd (extract_entries (output_dir_of opts) (export_entries ev)) = Inr ()"
    and "export_complete ev"
  shows "\<exists>pre. docker_steps opts ev image_name build_dir =
       (pre @ fst (extract_entries (output_dir_of opts) (export_entries ev)) @ [Proc_wait],
        Some (''rpm-builder-'' @ container_uuid ev),
        if export_rc ev \<noteq> 0 then Inl (TaskError Failed_to_extract_RPMS) else Inr ())
     \<and> files_written pre = [] \<and> Proc_wait \<notin> set pre \<and> calls pre = []"
proof -
  let ?cn = "''rpm-builder-'' @ container_uuid ev"
  let ?cmd1 = "build_image_cmd opts image_name build_dir"
  let ?cmd2 = "run_container_cmd opts ?cn image_name"
  let ?cmd3 = "extract_rpms_cmd opts ?cn"
  let ?pre = "[docker_workunit ''build-image'' ?cmd1,
               Log_debug (''Executing: '' @ str_join '' '' ?cmd1), Check_call ?cmd1,
               docker_workunit ''run-container'' ?cmd2,
               Log_debug (''Executing: '' @ str_join '' '' ?cmd2), Check_call ?cmd2,
               Safe_mkdir (output_dir_of opts), docker_workunit ''extract-rpms'' ?cmd3,
               Popen ?cmd3]"
  obtain evs4 where ex: "extract_entries (output_dir_of opts) (export_entries ev) = (evs4, Inr ())"
    using assms(3) by (cases "extract_entries (output_dir_of opts) (export_entries ev)") simp
  have "docker_steps opts ev image_name build_dir =
       (?pre @ fst (extract_entries (output_dir_of opts) (export_entries ev)) @ [Proc_wait],
        Some ?cn,
        if export_rc ev \<noteq> 0 then Inl (TaskError Failed_to_extract_RPMS) else Inr ())"
    using assms(1,2,4) ex
    by (simp add: docker_steps_def Let_def output_dir_of_def[symmetric])
  moreover have "files_written ?pre = [] \<and> Proc_wait \<notin> set ?pre \<and> calls ?pre = []"
    by (simp add: docker_workunit_def)
  ultimately show ?thesis by blast
qed

lemma docker_steps_wait:
  assumes "Proc_wait \<in> set (fst (docker_steps opts ev image_name build_dir))"
  shows "build_image_rc ev = 0 \<and> run_container_rc ev = 0
         \<and> snd (extract_entries (output_dir_of opts) (export_entries ev)) = Inr ()
         \<and> export_complete ev"
  using assms extract_entries_quiet[of "output_dir_of opts" "export_entries ev"]
  by (auto simp: docker_steps_def Let_def docker_workunit_def output_dir_of_def[symmetric]
           split: prod.splits sum.splits if_splits)

lemma docker_steps_nonzero_export:
  assumes "export_rc ev \<noteq> 0"
  shows "snd (snd (docker_steps opts ev image_name build_dir)) \<noteq> Inr ()"
  using assms
  by (auto simp: docker_steps_def Let_def split: prod.splits sum.splits)

lemma build_rpm_calls:
  assumes "assemble_context opts ev plat tgt build_dir = (evs0, Inr ())"
  shows "calls (fst (build_rpm opts ev plat tgt build_dir)) =
           (if keep_build_products opts then []
            else (if build_image_rc ev = 0
                  then [remove_container_cmd opts (''rpm-builder-'' @ container_uuid ev)]
                  else [])
                 @ [remove_image_cmd opts (image_name_of ev)])"
  using assemble_quiet_of(1)[OF assms]
  by (simp add: build_rpm_unfold[OF assms] calls_append docker_steps_calls
        docker_steps_container cleanup_effects)

text \<open>
  C2. In a build attempt that reaches the image build, whichever of the image build, the
  container run and the extraction fails, or none: a container name exists exactly when
  the image build succeeded; the attempt ends with the clean-up; and the commands the
  clean-up runs are, unless build products are kept, the removal of the container (when
  a container name exists) followed by the removal of the image, and none when build
  products are kept.
\<close>

theorem cleanup_after_every_attempt:
  assumes "assemble_context opts ev plat tgt build_dir = (evs0, Inr ())"
  shows "fst (snd (docker_steps opts ev (image_name_of ev) build_dir))
           = (if build_image_rc ev = 0 then Some (''rpm-builder-'' @ container_uuid ev) else None)
   \<and> (\<exists>pre. fst (build_rpm opts ev plat tgt build_dir)
               = pre @ cleanup opts (fst (snd (docker_steps opts ev (image_name_of ev) build_dir)))
                         (image_name_of ev)
             \<and> calls pre = [])
   \<and> calls (fst (build_rpm opts ev plat tgt build_dir)) =
           (if keep_build_products opts then []
            else (if build_image_rc ev = 0
                  then [remove_container_cmd opts (''rpm-builder-'' @ container_uuid ev)]
                  else [])
                 @ [remove_image_cmd opts (image_name_of ev)])"
proof -
  let ?steps = "docker_steps opts ev (image_name_of ev) build_dir"
  have "fst (build_rpm opts ev plat tgt build_dir)
        = (evs0 @ fst ?steps) @ cleanup opts (fst (snd ?steps)) (image_name_of ev)"
    by (simp add: build_rpm_unfold[OF assms])
  moreover have "calls (evs0 @ fst ?steps) = []"
    using assemble_quiet_of(1)[OF assms] by (simp add: calls_append docker_steps_calls)
  ultimately have "\<exists>pre. fst (build_rpm opts ev plat tgt build_dir)
               = pre @ cleanup opts (fst (snd ?steps)) (image_name_of ev) \<and> calls pre = []"
    by blast
  with docker_steps_container[of opts ev "image_name_of ev" build_dir] build_rpm_calls[OF assms]
  show ?thesis by blast
qed

lemma example_assemble_run_failed:
  "assemble_context example_options (example_env\<lparr>run_container_rc := 1\<rparr>) example_platform
     example_target ''/tmp/build''
   = (fst (assemble_context example_options (example_env\<lparr>run_container_rc := 1\<rparr>)
             example_platform example_target ''/tmp/build''), Inr ())"
proof -
  have "snd (assemble_context example_options (example_env\<lparr>run_container_rc := 1\<rparr>)
               example_platform example_target ''/tmp/build'') = Inr ()"
    by (simp add: assemble_context_def Let_def example_reqs)
       (simp add: example_options_def example_platform_def)
  then show ?thesis by (simp add: prod_eq_iff)
qed

theorem cleanup_after_every_attempt_witness:
  "calls (fst (build_rpm example_options (example_env\<lparr>run_container_rc := 1\<rparr>)
                 example_platform example_target ''/tmp/build''))
   = [[''docker'', ''rm'', ''rpm-builder-u2''], [''docker'', ''rmi'', ''rpm-image-u1:latest'']]"
proof -
  have v: "build_image_rc (example_env\<lparr>run_container_rc := 1\<rparr>) = 0
        \<and> \<not> keep_build_products example_options
        \<and> remove_container_cmd example_options
             (''rpm-builder-'' @ container_uuid (example_env\<lparr>run_container_rc := 1\<rparr>))
            = [''docker'', ''rm'', ''rpm-builder-u2'']
        \<and> remove_image_cmd example_options (image_name_of (example_env\<lparr>run_container_rc := 1\<rparr>))
            = [''docker'', ''rmi'', ''rpm-image-u1:latest'']"
    by (simp add: example_env_def example_options_def remove_container_cmd_def
        remove_image_cmd_def image_name_of_def)
  from cleanup_after_every_attempt[OF example_assemble_run_failed] v show ?thesis
    by simp
qed

text \<open>
  C4. In a build attempt that reaches the image build, a non-zero exit code of the export
  never lets the attempt succeed. The exit code is waited for only when the image was
  built, the container ran, every member of the archive was handled without an
  exception and the archive was read to its end; and then, with a non-zero exit code,
  the attempt fails with \<open>Failed to extract RPMS\<close> although the wait comes after all the
  effects of the extraction, so the files of the matching members are already written.
\<close>

theorem export_exit_code_is_fatal:
  assumes "assemble_context opts ev plat tgt build_dir = (evs0, Inr ())"
    and "export_rc ev \<noteq> 0"
  shows "snd (build_rpm opts ev plat tgt build_dir) \<noteq> Inr ()
   \<and> (Proc_wait \<in> set (fst (build_rpm opts ev plat tgt build_dir)) \<longrightarrow>
        build_image_rc ev = 0 \<and> run_container_rc ev = 0
        \<and> snd (extract_entries (output_dir_of opts) (export_entries ev)) = Inr ()
        \<and> export_complete ev)
   \<and> (build_image_rc ev = 0 \<and> run_container_rc ev = 0
        \<and> snd (extract_entries (output_dir_of opts) (export_entries ev)) = Inr ()
        \<and> export_complete ev \<longrightarrow>
        snd (build_rpm opts ev plat tgt build_dir) = Inl (TaskError Failed_to_extract_RPMS)
        \<and> (\<exists>pre. fst (build_rpm opts ev plat tgt build_dir)
                    = pre @ fst (extract_entries (output_dir_of opts) (export_entries ev))
                      @ Proc_wait
                      # cleanup opts (Some (''rpm-builder-'' @ container_uuid ev)) (image_name_of ev)
                  \<and> files_written pre = [] \<and> Proc_wait \<notin> set pre)
        \<and> files_written (fst (build_rpm opts ev plat tgt build_dir)) =
            map (\<lambda>en. (os_path_join (output_dir_of opts)
                          (remove_prefix (entry_name en) ''home/rpmuser/rpmbuild/''),
                        member_bytes (entry_member en)))
                (filter (\<lambda>en. is_rpm_name (entry_name en)) (export_entries ev)))"
proof -
  let ?steps = "docker_steps opts ev (image_name_of ev) build_dir"
  let ?run = "build_rpm opts ev plat tgt build_dir"
  let ?ex = "extract_entries (output_dir_of opts) (export_entries ev)"
  let ?cn = "''rpm-builder-'' @ container_uuid ev"
  note unf = build_rpm_unfold[OF assms(1)]
  have a: "snd ?run \<noteq> Inr ()"
    using docker_steps_nonzero_export[OF assms(2), of opts "image_name_of ev" build_dir]
    by (simp add: unf)
  have b: "build_image_rc ev = 0 \<and> run_container_rc ev = 0 \<and> snd ?ex = Inr ()
           \<and> export_complete ev" if "Proc_wait \<in> set (fst ?run)"
  proof -
    from that assemble_quiet_of(4)[OF assms(1)] cleanup_effects(4)
    have "Proc_wait \<in> set (fst ?steps)" by (auto simp: unf)
    then show ?thesis by (rule docker_steps_wait)
  qed
  have c: "snd ?run = Inl (TaskError Failed_to_extract_RPMS)
        \<and> (\<exists>pre. fst ?run = pre @ fst ?ex @ Proc_wait # cleanup opts (Some ?cn) (image_name_of ev)
                  \<and> files_written pre = [] \<and> Proc_wait \<notin> set pre)
        \<and> files_written (fst ?run) =
            map (\<lambda>en. (os_path_join (output_dir_of opts)
                          (remove_prefix (entry_name en) ''home/rpmuser/rpmbuild/''),
                        member_bytes (entry_member en)))
                (filter (\<lambda>en. is_rpm_name (entry_name en)) (export_entries ev))"
    if h: "build_image_rc ev = 0" "run_container_rc ev = 0" "snd ?ex = Inr ()" "export_complete ev"
  proof -
    from docker_steps_extracted[OF h, of "image_name_of ev" build_dir] assms(2)
    obtain pre where
      st: "?steps = (pre @ fst ?ex @ [Proc_wait], Some ?cn, Inl (TaskError Failed_to_extract_RPMS))"
      and pre: "files_written pre = []" "Proc_wait \<notin> set pre"
      by auto
    have r: "snd ?run = Inl (TaskError Failed_to_extract_RPMS)"
      by (simp add: unf st)
    have e: "fst ?run = (evs0 @ pre) @ fst ?ex @ Proc_wait # cleanup opts (Some ?cn) (image_name_of ev)"
      by (simp add: unf st)
    have p: "files_written (evs0 @ pre) = [] \<and> Proc_wait \<notin> set (evs0 @ pre)"
      using pre assemble_quiet_of(3,4)[OF assms(1)] by (simp add: files_written_append)
    have "?ex = (fst ?ex, Inr ())" using h(3) by (simp add: prod_eq_iff)
    from extract_entries_written[OF this]
    have w: "files_written (fst ?run) =
            map (\<lambda>en. (os_path_join (output_dir_of opts)
                          (remove_prefix (entry_name en) ''home/rpmuser/rpmbuild/''),
                        member_bytes (entry_member en)))
                (filter (\<lambda>en. is_rpm_name (entry_name en)) (export_entries ev))"
      using p by (simp add: e files_written_append cleanup_effects del: append_assoc)
    from r e p w show ?thesis by blast
  qed
  from a b c show ?thesis by blast
qed

lemma example_assemble_export_failed:
  "assemble_context example_options (example_env\<lparr>export_rc := 1\<rparr>) example_platform
     example_target ''/tmp/build''
   = (fst (assemble_context example_options (example_env\<lparr>export_rc := 1\<rparr>)
             example_platform example_target ''/tmp/build''), Inr ())"
proof -
  have "snd (assemble_context example_options (example_env\<lparr>export_rc := 1\<rparr>)
               example_platform example_target ''/tmp/build'') = Inr ()"
    by (simp add: assemble_context_def Let_def example_reqs)
       (simp add: example_options_def example_platform_def)
  then show ?thesis by (simp add: prod_eq_iff)
qed

theorem export_exit_code_is_fatal_witness:
  "snd (build_rpm example_options (example_env\<lparr>export_rc := 1\<rparr>) example_platform
          example_target ''/tmp/build'') = Inl (TaskError Failed_to_extract_RPMS)
   \<and> files_written (fst (build_rpm example_options (example_env\<lparr>export_rc := 1\<rparr>)
          example_platform example_target ''/tmp/build''))
     = [(''dist/rpmbuild/RPMS/x86_64/pkg-1.0.rpm'', ''abc'')]"
proof -
  let ?ev = "example_env\<lparr>export_rc := 1\<rparr>"
  have rc: "export_rc ?ev \<noteq> 0" by simp
  have out: "output_dir_of example_options = ''dist/rpmbuild''"
    by (simp add: output_dir_of_def example_options_def os_path_join_def startswith_def
        endswith_def)
  have ex: "snd (extract_entries (output_dir_of example_options) (export_entries ?ev)) = Inr ()"
    unfolding out
    by (simp add: example_env_def extract_entry_def is_ascii_def is_rpm_name_def
        startswith_def endswith_def lstrip_chars_def Let_def)
  have pre: "build_image_rc ?ev = 0 \<and> run_container_rc ?ev = 0
        \<and> snd (extract_entries (output_dir_of example_options) (export_entries ?ev)) = Inr ()
        \<and> export_complete ?ev"
    using ex by (simp add: example_env_def)
  have v: "map (\<lambda>en. (os_path_join (output_dir_of example_options)
                   (remove_prefix (entry_name en) ''home/rpmuser/rpmbuild/''),
                 member_bytes (entry_member en)))
         (filter (\<lambda>en. is_rpm_name (entry_name en)) (export_entries ?ev))
        = [(''dist/rpmbuild/RPMS/x86_64/pkg-1.0.rpm'', ''abc'')]"
    unfolding out
    by (simp add: example_env_def is_rpm_name_def
        startswith_def endswith_def remove_prefix_def os_path_join_def member_bytes_def)
  from export_exit_code_is_fatal[OF example_assemble_export_failed rc] pre v
  show ?thesis by simp
qed

text \<open>
  C6, amended. When the image build exits with a non-zero code, the attempt fails with
  \<open>Failed to build image\<close>; the image build is the only command run with
  \<open>check_call\<close>, so the container is never run; no container name is created and no
  file is written; and the clean-up runs no container removal, and runs the image
  removal unless build products are kept, in which case it runs nothing.
\<close>

theorem build_failure_skips_run:
  assumes "assemble_context opts ev plat tgt build_dir = (evs0, Inr ())"
    and "build_image_rc ev \<noteq> 0"
  shows "snd (build_rpm opts ev plat tgt build_dir)
           = Inl (TaskError (Failed_to_build_image
                   (build_image_cmd opts (image_name_of ev) build_dir) (build_image_rc ev)))
   \<and> check_calls (fst (build_rpm opts ev plat tgt build_dir))
       = [build_image_cmd opts (image_name_of ev) build_dir]
   \<and> fst (snd (docker_steps opts ev (image_name_of ev) build_dir)) = None
   \<and> files_written (fst (build_rpm opts ev plat tgt build_dir)) = []
   \<and> calls (fst (build_rpm opts ev plat tgt build_dir))
       = (if keep_build_products opts then [] else [remove_image_cmd opts (image_name_of ev)])"
proof -
  note st = docker_steps_build_failed[OF assms(2), of opts "image_name_of ev" build_dir]
  note unf = build_rpm_unfold[OF assms(1)]
  have "snd (build_rpm opts ev plat tgt build_dir)
           = Inl (TaskError (Failed_to_build_image
                   (build_image_cmd opts (image_name_of ev) build_dir) (build_image_rc ev)))"
    by (simp add: unf st)
  moreover have "check_calls (fst (build_rpm opts ev plat tgt build_dir))
       = [build_image_cmd opts (image_name_of ev) build_dir]"
    using assemble_quiet_of(2)[OF assms(1)] assms(2)
    by (simp add: unf check_calls_append docker_steps_check_calls cleanup_effects)
  moreover have "fst (snd (docker_steps opts ev (image_name_of ev) build_dir)) = None"
    by (simp add: st)
  moreover have "files_written (fst (build_rpm opts ev plat tgt build_dir)) = []"
    using assemble_quiet_of(3)[OF assms(1)]
    by (simp add: unf st files_written_append cleanup_effects docker_workunit_def)
  moreover have "calls (fst (build_rpm opts ev plat tgt build_dir))
       = (if keep_build_products opts then [] else [remove_image_cmd opts (image_name_of ev)])"
    using assms(2) by (simp add: build_rpm_calls[OF assms(1)])
  ultimately show ?thesis by blast
qed

lemma example_assemble_build_failed:
  "assemble_context opts (example_env\<lparr>build_image_rc := 1\<rparr>) example_platform
     example_target ''/tmp/build''
   = (fst (assemble_context opts (example_env\<lparr>build_image_rc := 1\<rparr>)
             example_platform example_target ''/tmp/build''), Inr ())"
  if "docker_build_context_files opts = []" and "docker_build_setup_commands opts = []"
proof -
  have "snd (assemble_context opts (example_env\<lparr>build_image_rc := 1\<rparr>)
               example_platform example_target ''/tmp/build'') = Inr ()"
    using that
    by (simp add: assemble_context_def Let_def example_reqs)
       (simp add: example_platform_def)
  then show ?thesis by (simp add: prod_eq_iff)
qed

theorem build_failure_skips_run_witness:
  "calls (fst (build_rpm example_options (example_env\<lparr>build_image_rc := 1\<rparr>)
                 example_platform example_target ''/tmp/build''))
     = [[''docker'', ''rmi'', ''rpm-image-u1:latest'']]
   \<and> check_calls (fst (build_rpm example_options (example_env\<lparr>build_image_rc := 1\<rparr>)
                 example_platform example_target ''/tmp/build''))
     = [[''docker'', ''build'', ''-t'', ''rpm-image-u1:latest'', ''/tmp/build'']]"
proof -
  let ?ev = "example_env\<lparr>build_image_rc := 1\<rparr>"
  have a: "assemble_context example_options ?ev example_platform example_target ''/tmp/build''
   = (fst (assemble_context example_options ?ev example_platform example_target ''/tmp/build''),
      Inr ())"
    by (rule example_assemble_build_failed) (simp_all add: example_options_def)
  have rc: "build_image_rc ?ev \<noteq> 0" by simp
  have v: "\<not> keep_build_products example_options
        \<and> remove_image_cmd example_options (image_name_of ?ev)
            = [''docker'', ''rmi'', ''rpm-image-u1:latest'']
        \<and> build_image_cmd example_options (image_name_of ?ev) ''/tmp/build''
            = [''docker'', ''build'', ''-t'', ''rpm-image-u1:latest'', ''/tmp/build'']"
    by (simp add: example_env_def example_options_def build_image_cmd_def
        remove_image_cmd_def image_name_of_def)
  from build_failure_skips_run[OF a rc] v show ?thesis by simp
qed

text \<open>
  C6 as worded fails when build products are kept: a failed image build is then followed
  by no removal at all, so the image removal is not invoked.
\<close>

theorem build_failure_keeps_image:
  "build_image_rc (example_env\<lparr>build_image_rc := 1\<rparr>) \<noteq> 0
   \<and> snd (assemble_context (example_options\<lparr>keep_build_products := True\<rparr>)
            (example_env\<lparr>build_image_rc := 1\<rparr>) example_platform example_target ''/tmp/build'')
     = Inr ()
   \<and> calls (fst (build_rpm (example_options\<lparr>keep_build_products := True\<rparr>)
                 (example_env\<lparr>build_image_rc := 1\<rparr>)
                 example_platform example_target ''/tmp/build'')) = []"
proof -
  let ?ev = "example_env\<lparr>build_image_rc := 1\<rparr>"
  let ?opts = "example_options\<lparr>keep_build_products := True\<rparr>"
  have a: "assemble_context ?opts ?ev example_platform example_target ''/tmp/build''
   = (fst (assemble_context ?opts ?ev example_platform example_target ''/tmp/build''), Inr ())"
    by (rule example_assemble_build_failed) (simp_all add: example_options_def)
  then have "snd (assemble_context ?opts ?ev example_platform example_target ''/tmp/build'')
             = Inr ()"
    by (simp add: prod_eq_iff)
  moreover have "calls (fst (build_rpm ?opts ?ev example_platform example_target ''/tmp/build''))
                 = []"
    by (simp add: build_rpm_calls[OF a])
  ultimately show ?thesis by simp
qed

section \<open>An unknown platform\<close>

text \<open>
  C9. When the configured platform is not a key of the platform table, \<open>execute\<close> fails
  with the \<open>TaskError\<close> \<open>Unknown platform\<close> naming the key, and has no effect at all:
  nothing is done for any target.
\<close>

theorem unknown_platform_aborts:
  assumes "platforms opts (platform opts) = None"
  shows "execute opts targets = ([], Inl (TaskError (Unknown_platform (platform opts))))"
  using assms by (simp add: execute_def Let_def)

theorem unknown_platform_aborts_witness:
  "execute (example_options\<lparr>platform := ''centos8''\<rparr>) [(RpmSpecTarget example_target, example_env)]
   = ([], Inl (TaskError (Unknown_platform ''centos8'')))"
proof -
  have h: "platforms (example_options\<lparr>platform := ''centos8''\<rparr>)
             (platform (example_options\<lparr>platform := ''centos8''\<rparr>)) = None"
    by (simp add: example_options_def)
  from unknown_platform_aborts[OF h, of "[(RpmSpecTarget example_target, example_env)]"]
  show ?thesis by simp
qed

section \<open>The image-definition file\<close>

lemma assemble_context_dockerfile:
  assumes "assemble_context opts ev plat tgt build_dir = (evs, Inr ())"
  shows "\<exists>reqs path ctx. extract_build_reqs (spec_content ev) = Inr reqs
           \<and> dockerfiles evs = [(path, ctx)]
           \<and> df_build_reqs ctx = build_reqs_block reqs"
  using assms
    copy_context_files_quiet[of ev plat build_dir "docker_build_context_files opts"]
    map_Copy_quiet[of "os_path_join (buildroot ev)" build_dir "sources_relative_to_buildroot tgt"]
  by (auto simp: assemble_context_def Let_def dockerfiles_append
        split: sum.splits prod.splits option.splits)

text \<open>
  C10. When the build context is assembled, one image-definition file is rendered, and
  its build-requirements block is absent exactly when the list of extracted requirements
  is empty; for a non-empty list the block is the names of the list, in order, joined by
  single spaces.
\<close>

theorem dockerfile_build_reqs_block:
  assumes "assemble_context opts ev plat tgt build_dir = (evs, Inr ())"
  shows "\<exists>reqs path ctx. extract_build_reqs (spec_content ev) = Inr reqs
           \<and> dockerfiles evs = [(path, ctx)]
           \<and> (df_build_reqs ctx = None \<longleftrightarrow> reqs = [])
           \<and> (reqs \<noteq> [] \<longrightarrow> df_build_reqs ctx = Some (str_join '' '' reqs))"
proof -
  from assemble_context_dockerfile[OF assms] obtain reqs path ctx where
    "extract_build_reqs (spec_content ev) = Inr reqs"
    "dockerfiles evs = [(path, ctx)]"
    "df_build_reqs ctx = build_reqs_block reqs"
    by blast
  then show ?thesis by (auto simp: build_reqs_block_def)
qed

theorem dockerfile_build_reqs_block_witness:
  "\<exists>path ctx.
     dockerfiles (fst (assemble_context example_options example_env example_platform
                         example_target ''/tmp/build'')) = [(path, ctx)]
     \<and> df_build_reqs ctx = Some ''foo bar''"
proof -
  from dockerfile_build_reqs_block[OF example_assemble_pair] obtain reqs path ctx where
    r: "extract_build_reqs (spec_content example_env) = Inr reqs"
    and d: "dockerfiles (fst (assemble_context example_options example_env example_platform
                         example_target ''/tmp/build'')) = [(path, ctx)]"
    and b: "reqs \<noteq> [] \<longrightarrow> df_build_reqs ctx = Some (str_join '' '' reqs)"
    by blast
  from r example_reqs have "reqs = [''foo'', ''bar'']" by simp
  with b have "df_build_reqs ctx = Some ''foo bar''" by simp
  with d show ?thesis by blast
qed

end
